theory Spec2Isabelle
  imports Main "HOL-Library.AList"
begin

section \<open>udiskie.udisks1: the cached device registry and the job events of the Daemon\<close>

text \<open>
  The module wraps the UDisks DBus service.  \<^verbatim>\<open>Sniffer\<close> answers every question from the
  bus, \<^verbatim>\<open>Daemon\<close> keeps one \<^verbatim>\<open>CachedDevice\<close> per object path and turns the four bus
  signals into events.  The bus itself, \<^verbatim>\<open>DBusProxy\<close>, \<^verbatim>\<open>Emitter\<close> and
  \<^verbatim>\<open>os.path.normpath\<close> live outside the module; they are parameters here.
\<close>

subsection \<open>The bus\<close>

type_synonym object_path = string

text \<open>The properties of \<^verbatim>\<open>org.freedesktop.UDisks.Device\<close> that \<^verbatim>\<open>OnlineDevice\<close> reads.\<close>

record properties =
  DeviceFile :: string
  DeviceIsDrive :: bool
  DeviceIsPartitionTable :: bool
  DeviceIsPartition :: bool
  DeviceIsLuks :: bool
  DeviceIsLuksCleartext :: bool
  DeviceIsMediaAvailable :: bool
  DeviceIsMounted :: bool
  DeviceIsSystemInternal :: bool
  DevicePresentationHide :: bool
  DeviceMountPaths :: "string list"
  DriveCanDetach :: bool
  DriveIsMediaEjectable :: bool
  IdUsage :: string
  IdType :: string
  IdLabel :: string
  IdUuid :: string
  LuksCleartextSlave :: object_path
  LuksHolder :: object_path
  PartitionSlave :: object_path

text \<open>
  The module is written for both interpreters (\<^verbatim>\<open>__bool__ = __nonzero__\<close>,
  \<^verbatim>\<open>udiskie.compat\<close>).  They differ in one place that matters here, \<^verbatim>\<open>copy\<close> of a
  cached device, see \<open>copy_device\<close> below.
\<close>

datatype python = Python2 | Python3

text \<open>
  What surrounds the handling of one notification.  The service answers
  \<^verbatim>\<open>EnumerateDevices()\<close>, and for every object path either the properties of the device or
  nothing, in which case reading any property raises the proxy's \<^verbatim>\<open>Exception\<close>.
  \<open>normpath\<close> is \<^verbatim>\<open>os.path.normpath\<close>, \<open>interpreter\<close> is the interpreter that runs
  the daemon, and \<open>recursion_limit\<close> is the number of nested calls it grants to the
  recursive property \<^verbatim>\<open>OnlineDevice.drive\<close> before it raises.  One notification is
  handled against one such answer.
\<close>

record bus =
  EnumerateDevices :: "object_path list"
  device_properties :: "object_path \<Rightarrow> properties option"
  normpath :: "string \<Rightarrow> string"
  interpreter :: python
  recursion_limit :: nat

datatype exn = KeyError | AttributeError | RecursionError

subsection \<open>OnlineDevice\<close>

text \<open>
  An \<^verbatim>\<open>OnlineDevice\<close> is a proxy for one object path and holds no state of its own, so it
  is represented by that path.  A property yields \<open>None\<close> where the source raises the
  proxy's exception, and \<open>Some v\<close> where it returns \<open>v\<close>; Python's \<^verbatim>\<open>None\<close> as a
  returned value is an inner \<open>None\<close>.
\<close>

definition property :: "bus \<Rightarrow> object_path \<Rightarrow> (properties \<Rightarrow> 'a) \<Rightarrow> 'a option" where
  "property b p f = map_option f (device_properties b p)"

definition online_is_valid :: "bus \<Rightarrow> object_path \<Rightarrow> bool" where
  "online_is_valid b p = (case property b p DeviceFile of Some _ \<Rightarrow> True | None \<Rightarrow> False)"

definition online_is_drive :: "bus \<Rightarrow> object_path \<Rightarrow> bool option" where
  "online_is_drive b p = property b p DeviceIsDrive"

definition online_is_partition_table :: "bus \<Rightarrow> object_path \<Rightarrow> bool option" where
  "online_is_partition_table b p = property b p DeviceIsPartitionTable"

definition online_is_partition :: "bus \<Rightarrow> object_path \<Rightarrow> bool option" where
  "online_is_partition b p = property b p DeviceIsPartition"

definition online_id_usage :: "bus \<Rightarrow> object_path \<Rightarrow> string option" where
  "online_id_usage b p = property b p IdUsage"

definition online_is_filesystem :: "bus \<Rightarrow> object_path \<Rightarrow> bool option" where
  "online_is_filesystem b p = map_option (\<lambda>u. u = ''filesystem'') (online_id_usage b p)"

definition online_is_luks :: "bus \<Rightarrow> object_path \<Rightarrow> bool option" where
  "online_is_luks b p = property b p DeviceIsLuks"

definition online_is_detachable :: "bus \<Rightarrow> object_path \<Rightarrow> bool option option" where
  "online_is_detachable b p =
     (case online_is_drive b p of
        None \<Rightarrow> None
      | Some True \<Rightarrow> map_option Some (property b p DriveCanDetach)
      | Some False \<Rightarrow> Some None)"

definition online_is_ejectable :: "bus \<Rightarrow> object_path \<Rightarrow> bool option option" where
  "online_is_ejectable b p =
     (case online_is_drive b p of
        None \<Rightarrow> None
      | Some True \<Rightarrow> map_option Some (property b p DriveIsMediaEjectable)
      | Some False \<Rightarrow> Some None)"

definition online_has_media :: "bus \<Rightarrow> object_path \<Rightarrow> bool option" where
  "online_has_media b p = property b p DeviceIsMediaAvailable"

definition online_device_file :: "bus \<Rightarrow> object_path \<Rightarrow> string option" where
  "online_device_file b p = map_option (normpath b) (property b p DeviceFile)"

definition online_is_ignored :: "bus \<Rightarrow> object_path \<Rightarrow> bool option" where
  "online_is_ignored b p = property b p DevicePresentationHide"

definition online_id_type :: "bus \<Rightarrow> object_path \<Rightarrow> string option" where
  "online_id_type b p = property b p IdType"

definition online_id_label :: "bus \<Rightarrow> object_path \<Rightarrow> string option" where
  "online_id_label b p = property b p IdLabel"

definition online_id_uuid :: "bus \<Rightarrow> object_path \<Rightarrow> string option" where
  "online_id_uuid b p = property b p IdUuid"

definition online_is_luks_cleartext :: "bus \<Rightarrow> object_path \<Rightarrow> bool option" where
  "online_is_luks_cleartext b p = property b p DeviceIsLuksCleartext"

definition online_is_systeminternal :: "bus \<Rightarrow> object_path \<Rightarrow> bool option" where
  "online_is_systeminternal b p = property b p DeviceIsSystemInternal"

definition online_is_external :: "bus \<Rightarrow> object_path \<Rightarrow> bool option" where
  "online_is_external b p = map_option Not (online_is_systeminternal b p)"

definition online_is_mounted :: "bus \<Rightarrow> object_path \<Rightarrow> bool option" where
  "online_is_mounted b p = property b p DeviceIsMounted"

definition online_mount_paths :: "bus \<Rightarrow> object_path \<Rightarrow> string list option" where
  "online_mount_paths b p =
     (case online_is_mounted b p of
        None \<Rightarrow> None
      | Some False \<Rightarrow> Some []
      | Some True \<Rightarrow> map_option (map (normpath b)) (property b p DeviceMountPaths))"

text \<open>
  The three properties that return a device return \<^verbatim>\<open>self.udisks[path]\<close>, and
  \<^verbatim>\<open>udisks\<close> is the \<^verbatim>\<open>Sniffer\<close>: the result is the \<^verbatim>\<open>OnlineDevice\<close> of that path,
  or \<^verbatim>\<open>None\<close> when the guard is false.
\<close>

definition online_luks_cleartext_slave :: "bus \<Rightarrow> object_path \<Rightarrow> object_path option option" where
  "online_luks_cleartext_slave b p =
     (case online_is_luks_cleartext b p of
        None \<Rightarrow> None
      | Some True \<Rightarrow> map_option Some (property b p LuksCleartextSlave)
      | Some False \<Rightarrow> Some None)"

definition online_partition_slave :: "bus \<Rightarrow> object_path \<Rightarrow> object_path option option" where
  "online_partition_slave b p =
     (case online_is_partition b p of
        None \<Rightarrow> None
      | Some True \<Rightarrow> map_option Some (property b p PartitionSlave)
      | Some False \<Rightarrow> Some None)"

definition online_luks_cleartext_holder :: "bus \<Rightarrow> object_path \<Rightarrow> object_path option option" where
  "online_luks_cleartext_holder b p =
     (case online_is_luks b p of
        None \<Rightarrow> None
      | Some True \<Rightarrow> map_option Some (property b p LuksHolder)
      | Some False \<Rightarrow> Some None)"

definition online_is_unlocked :: "bus \<Rightarrow> object_path \<Rightarrow> object_path option option" where
  "online_is_unlocked b p =
     (case online_is_luks b p of
        None \<Rightarrow> None
      | Some True \<Rightarrow> online_luks_cleartext_holder b p
      | Some False \<Rightarrow> Some None)"

text \<open>
  \<^verbatim>\<open>drive\<close> follows the partition slave, then the cleartext slave, until a device is
  neither.  \<open>Inl None\<close> is the proxy's exception, \<open>Inl (Some RecursionError)\<close> the
  interpreter giving up on a chain longer than the limit.
\<close>

fun online_drive :: "nat \<Rightarrow> bus \<Rightarrow> object_path \<Rightarrow> exn option + object_path" where
  "online_drive 0 b p = Inl (Some RecursionError)"
| "online_drive (Suc n) b p =
     (case device_properties b p of
        None \<Rightarrow> Inl None
      | Some pr \<Rightarrow>
          if DeviceIsPartition pr then online_drive n b (PartitionSlave pr)
          else if DeviceIsLuksCleartext pr then online_drive n b (LuksCleartextSlave pr)
          else Inr p)"

subsection \<open>CachedDevice\<close>

text \<open>
  The constructor copies every property of the online device into the new object, storing
  \<^verbatim>\<open>None\<close> where reading raises the proxy's exception.  The record below holds the
  properties this development speaks about; \<^verbatim>\<open>device_presentation\<close>, \<^verbatim>\<open>in_use\<close>,
  \<^verbatim>\<open>is_block\<close>, \<^verbatim>\<open>is_crypto\<close>, \<^verbatim>\<open>is_systeminternal\<close>, \<^verbatim>\<open>is_toplevel\<close> and
  \<^verbatim>\<open>root\<close> are cached by the same loop and left out.  Should reading one of those
  raise something other than the proxy's exception, the constructor raises where the
  function below returns; \<^verbatim>\<open>update\<close> then leaves the daemon as it was.

  Four names are overridden in the class by \<^verbatim>\<open>_CachedDeviceProperty\<close>, whose setter
  stores only the object path of the device it is given, under the name with an underscore
  in front (\<open>key_drive\<close> for \<^verbatim>\<open>_drive\<close>, and so on).  \<open>is_unlocked\<close> is not
  overridden: the attribute holds the \<^verbatim>\<open>OnlineDevice\<close> of the holder, or \<^verbatim>\<open>None\<close>.
  \<open>object_path\<close> is not set on the object; \<^verbatim>\<open>__getattr__\<close> takes it from the online
  device the object was built from.
\<close>

record cached_device =
  object_path :: object_path
  is_valid :: bool
  device_file :: "string option"
  has_media :: "bool option"
  id_label :: "string option"
  id_type :: "string option"
  id_usage :: "string option"
  id_uuid :: "string option"
  is_detachable :: "bool option"
  is_drive :: "bool option"
  is_ejectable :: "bool option"
  is_external :: "bool option"
  is_filesystem :: "bool option"
  is_ignored :: "bool option"
  is_luks :: "bool option"
  is_luks_cleartext :: "bool option"
  is_mounted :: "bool option"
  is_partition :: "bool option"
  is_partition_table :: "bool option"
  is_unlocked :: "object_path option"
  mount_paths :: "string list option"
  key_drive :: "object_path option"
  key_luks_cleartext_holder :: "object_path option"
  key_luks_cleartext_slave :: "object_path option"
  key_partition_slave :: "object_path option"

text \<open>\<^verbatim>\<open>try: setattr(self, key, getattr(device, key)) except device.Exception: setattr(self, key, None)\<close>
  for a property whose own value may be \<^verbatim>\<open>None\<close>.\<close>

definition cached :: "'a option option \<Rightarrow> 'a option" where
  "cached v = (case v of None \<Rightarrow> None | Some x \<Rightarrow> x)"

definition CachedDevice :: "bus \<Rightarrow> object_path \<Rightarrow> exn + cached_device" where
  "CachedDevice b p =
     (case online_drive (recursion_limit b) b p of
        Inl (Some e) \<Rightarrow> Inl e
      | r \<Rightarrow> Inr \<lparr>
          object_path = p,
          is_valid = online_is_valid b p,
          device_file = online_device_file b p,
          has_media = online_has_media b p,
          id_label = online_id_label b p,
          id_type = online_id_type b p,
          id_usage = online_id_usage b p,
          id_uuid = online_id_uuid b p,
          is_detachable = cached (online_is_detachable b p),
          is_drive = online_is_drive b p,
          is_ejectable = cached (online_is_ejectable b p),
          is_external = online_is_external b p,
          is_filesystem = online_is_filesystem b p,
          is_ignored = online_is_ignored b p,
          is_luks = online_is_luks b p,
          is_luks_cleartext = online_is_luks_cleartext b p,
          is_mounted = online_is_mounted b p,
          is_partition = online_is_partition b p,
          is_partition_table = online_is_partition_table b p,
          is_unlocked = cached (online_is_unlocked b p),
          mount_paths = online_mount_paths b p,
          key_drive = (case r of Inr d \<Rightarrow> Some d | Inl _ \<Rightarrow> None),
          key_luks_cleartext_holder = cached (online_luks_cleartext_holder b p),
          key_luks_cleartext_slave = cached (online_luks_cleartext_slave b p),
          key_partition_slave = cached (online_partition_slave b p) \<rparr>)"

text \<open>\<^verbatim>\<open>DeviceBase.__nonzero__\<close>: a device is true when it is valid.  For a cached device
  that is the stored flag, for an online device a question to the bus.\<close>

definition cached_nonzero :: "cached_device \<Rightarrow> bool" where
  "cached_nonzero dev = is_valid dev"

definition online_nonzero :: "bus \<Rightarrow> object_path \<Rightarrow> bool" where
  "online_nonzero b p = online_is_valid b p"

text \<open>
  \<^verbatim>\<open>_CachedDeviceProperty.get\<close> returns \<^verbatim>\<open>self._daemon[key]\<close>.  The constructor sets
  \<^verbatim>\<open>self._daemon = device.udisks\<close>, and every online device is made by
  \<^verbatim>\<open>Sniffer.get\<close>, which passes the sniffer itself as \<^verbatim>\<open>udisks\<close>.  So the lookup is
  \<^verbatim>\<open>Sniffer.__getitem__\<close>, that is \<^verbatim>\<open>Sniffer.get\<close>: a new online device for the
  stored key.  A device value is either such a proxy, named by the key handed to
  \<^verbatim>\<open>get_object\<close>, or a cached object, named by its address in the store below.
\<close>

datatype device = OnlineDevice "object_path option" | CachedObject nat

definition Sniffer_get :: "object_path option \<Rightarrow> device" where
  "Sniffer_get key = OnlineDevice key"

definition cached_luks_cleartext_slave :: "cached_device \<Rightarrow> device" where
  "cached_luks_cleartext_slave dev = Sniffer_get (key_luks_cleartext_slave dev)"

definition cached_drive :: "cached_device \<Rightarrow> device" where
  "cached_drive dev = Sniffer_get (key_drive dev)"

definition cached_partition_slave :: "cached_device \<Rightarrow> device" where
  "cached_partition_slave dev = Sniffer_get (key_partition_slave dev)"

definition cached_luks_cleartext_holder :: "cached_device \<Rightarrow> device" where
  "cached_luks_cleartext_holder dev = Sniffer_get (key_luks_cleartext_holder dev)"

subsection \<open>The state of the Daemon\<close>

text \<open>
  Cached devices are objects: \<^verbatim>\<open>_invalidate\<close> copies one and changes the copy, and event
  handlers keep the objects they were given.  So the objects live in a store, a new object
  is put at its end, and \<^verbatim>\<open>_devices\<close> maps an object path to the address of an object.
  \<^verbatim>\<open>_devices\<close> is an association list in the order of the dictionary; \<open>AList.update\<close>
  replaces the value of a present key in place and puts a new key last, as a dictionary
  assignment does under Python 3.  Under Python 2 the order of a dictionary is not that of
  insertion; nothing below depends on the order, only on \<^verbatim>\<open>paths()\<close> and the iteration
  going through the same dictionary.
\<close>

record job =
  job_id :: string
  percentage :: int

datatype action = Mount | Unmount | Unlock | Lock | Eject | Detach

fun action_name :: "action \<Rightarrow> string" where
  "action_name Mount = ''mount''"
| "action_name Unmount = ''unmount''"
| "action_name Unlock = ''unlock''"
| "action_name Lock = ''lock''"
| "action_name Eject = ''eject''"
| "action_name Detach = ''detach''"

record daemon =
  store :: "cached_device list"
  devices :: "(object_path \<times> nat) list"
  jobs :: "object_path \<rightharpoonup> job"
  errors :: "action \<Rightarrow> object_path \<rightharpoonup> string"

text \<open>
  \<^verbatim>\<open>trigger\<close> belongs to \<^verbatim>\<open>Emitter\<close>.  Here an event that is triggered is put on the
  list of events the listener returns, and the one handler the constructor connects,
  \<^verbatim>\<open>_on_device_changed\<close>, is run when \<^verbatim>\<open>device_changed\<close> is triggered; handlers
  connected from outside are not part of the module.  An argument of \<^verbatim>\<open>trigger\<close> is a
  cached device or \<^verbatim>\<open>None\<close>, a percentage or a string.  The percentage is only stored
  and handed on.
\<close>

datatype arg = Device "nat option" | Number int | Text string

type_synonym event = "string \<times> arg list"

text \<open>What a listener did: it returned, or an exception left it.  The state and the events
  triggered up to that point come with either.\<close>

datatype outcome = Returned | Raised exn

text \<open>The names handed to \<^verbatim>\<open>Emitter.__init__\<close>: the comprehension runs over the
  suffixes outside and the stems inside.\<close>

definition stems :: "string list" where
  "stems = [''device_add'', ''device_remov'', ''device_mount'', ''device_unmount'',
            ''media_add'', ''media_remov'', ''device_unlock'', ''device_lock'',
            ''device_chang'']"

definition event_names :: "string list" where
  "event_names =
     concat (map (\<lambda>suffix. map (\<lambda>stem. stem @ suffix) stems) [''ed'', ''ing''])
     @ [''job_failed'']"

subsection \<open>Registry: paths, get, iteration, update, invalidate, sync\<close>

definition Daemon_get :: "daemon \<Rightarrow> object_path \<Rightarrow> nat option" where
  "Daemon_get st p = map_of (devices st) p"

definition Daemon_paths :: "daemon \<Rightarrow> object_path list" where
  "Daemon_paths st =
     map fst (filter (\<lambda>(p, r). cached_nonzero (store st ! r)) (devices st))"

text \<open>\<^verbatim>\<open>UDisks.__iter__\<close>: \<^verbatim>\<open>filter(None, map(self.get, self.paths()))\<close>.\<close>

definition UDisks_iter :: "daemon \<Rightarrow> nat list" where
  "UDisks_iter st =
     List.map_filter
       (\<lambda>d. case d of
               None \<Rightarrow> None
             | Some r \<Rightarrow> if cached_nonzero (store st ! r) then Some r else None)
       (map (Daemon_get st) (Daemon_paths st))"

text \<open>
  \<^verbatim>\<open>copy(device)\<close> for a cached device.  The standard \<^verbatim>\<open>copy\<close> makes an empty
  instance of the class and asks \<^verbatim>\<open>hasattr(y, '__setstate__')\<close> before it fills in the
  attributes.  The instance has no \<^verbatim>\<open>__setstate__\<close>, so \<^verbatim>\<open>CachedDevice.__getattr__\<close>
  is called; it reads \<^verbatim>\<open>self._device\<close>, which the empty instance lacks as well, calls
  itself for that name, and so on until the interpreter stops the recursion.  Under
  Python 2 \<^verbatim>\<open>hasattr\<close> swallows every exception and answers no, and the copy is
  completed with the attributes of the original.  Under Python 3 \<^verbatim>\<open>hasattr\<close> swallows
  \<^verbatim>\<open>AttributeError\<close> only, so the \<^verbatim>\<open>RecursionError\<close> leaves \<^verbatim>\<open>copy\<close>.
\<close>

definition copy_device :: "python \<Rightarrow> cached_device \<Rightarrow> exn + cached_device" where
  "copy_device py dev = (case py of Python2 \<Rightarrow> Inr dev | Python3 \<Rightarrow> Inl RecursionError)"

text \<open>\<^verbatim>\<open>_invalidate\<close>: for a known path the entry is copied, the flag is cleared on the
  copy, and the dictionary is pointed at the copy.  When \<^verbatim>\<open>copy\<close> raises nothing has
  been changed yet.\<close>

definition invalidate :: "bus \<Rightarrow> daemon \<Rightarrow> object_path \<Rightarrow> exn + daemon" where
  "invalidate b st p =
     (case map_of (devices st) p of
        None \<Rightarrow> Inr st
      | Some r \<Rightarrow>
          (case copy_device (interpreter b) (store st ! r) of
             Inl e \<Rightarrow> Inl e
           | Inr update \<Rightarrow>
               Inr (st\<lparr>store := store st @ [update\<lparr>is_valid := False\<rparr>],
                       devices := AList.update p (length (store st)) (devices st)\<rparr>)))"

text \<open>\<^verbatim>\<open>Daemon.update\<close> returns the object it built, also when the dictionary was given
  an invalidated copy of the old one instead.  An exception leaves the daemon as it was.\<close>

definition Daemon_update :: "bus \<Rightarrow> daemon \<Rightarrow> object_path \<Rightarrow> exn + daemon \<times> nat" where
  "Daemon_update b st p =
     (case CachedDevice b p of
        Inl e \<Rightarrow> Inl e
      | Inr obj \<Rightarrow>
          (let r = length (store st);
               st1 = st\<lparr>store := store st @ [obj]\<rparr>
           in if cached_nonzero obj \<or> map_of (devices st) p = None
              then Inr (st1\<lparr>devices := AList.update p r (devices st1)\<rparr>, r)
              else (case invalidate b st1 p of
                      Inl e \<Rightarrow> Inl e
                    | Inr st2 \<Rightarrow> Inr (st2, r))))"

text \<open>\<^verbatim>\<open>set_error\<close> reads only the object path of the device it is given.  The action is
  one of the six keys the constructor puts into \<^verbatim>\<open>_errors\<close>.\<close>

definition set_error :: "daemon \<Rightarrow> cached_device \<Rightarrow> action \<Rightarrow> string \<Rightarrow> daemon" where
  "set_error st dev a message =
     st\<lparr>errors := (errors st)(a := (errors st a)(object_path dev \<mapsto> message))\<rparr>"

text \<open>\<^verbatim>\<open>_sync\<close>: the sniffer yields the enumerated devices that are valid; the first
  dictionary is keyed by their paths, the second holds a cached device for each key.\<close>

definition Sniffer_iter :: "bus \<Rightarrow> object_path list" where
  "Sniffer_iter b = filter (online_nonzero b) (EnumerateDevices b)"

fun sync_cache :: "bus \<Rightarrow> object_path list \<Rightarrow> daemon \<Rightarrow> exn + daemon" where
  "sync_cache b [] st = Inr st"
| "sync_cache b (p # ps) st =
     (case CachedDevice b p of
        Inl e \<Rightarrow> Inl e
      | Inr obj \<Rightarrow>
          sync_cache b ps
            (st\<lparr>store := store st @ [obj],
                devices := AList.update p (length (store st)) (devices st)\<rparr>))"

definition sync :: "bus \<Rightarrow> daemon \<Rightarrow> exn + daemon" where
  "sync b st =
     (let online = fold (\<lambda>p d. AList.update p p d) (Sniffer_iter b) []
      in sync_cache b (map fst online) (st\<lparr>devices := []\<rparr>))"

text \<open>\<^verbatim>\<open>Daemon.__init__\<close>: empty jobs and devices, one empty error dictionary for each
  action, then \<^verbatim>\<open>_sync\<close>.  An exception there leaves no daemon.\<close>

definition Daemon_init :: "bus \<Rightarrow> exn + daemon" where
  "Daemon_init b =
     sync b \<lparr>store = [], devices = [], jobs = Map.empty, errors = (\<lambda>_. Map.empty)\<rparr>"

subsection \<open>The listeners\<close>

definition truth :: "bool option \<Rightarrow> bool" where
  "truth v = (v = Some True)"

text \<open>The truth of \<^verbatim>\<open>dev.is_unlocked\<close>: \<^verbatim>\<open>None\<close> is false, an online device is true
  when the bus knows it now.\<close>

definition unlocked_truth :: "bus \<Rightarrow> cached_device \<Rightarrow> bool" where
  "unlocked_truth b dev =
     (case is_unlocked dev of None \<Rightarrow> False | Some holder \<Rightarrow> online_nonzero b holder)"

text \<open>
  \<^verbatim>\<open>_on_device_changed\<close>, connected to \<^verbatim>\<open>device_changed\<close> by the constructor.  Both
  entries of \<^verbatim>\<open>d\<close> are computed before anything is triggered, and the second reads
  \<^verbatim>\<open>old_state.has_media\<close> whatever the first did, so an old state that is \<^verbatim>\<open>None\<close>
  raises.
\<close>

definition on_device_changed ::
  "daemon \<Rightarrow> nat option \<Rightarrow> nat \<Rightarrow> outcome \<times> event list" where
  "on_device_changed st old_state new_state =
     (case old_state of
        None \<Rightarrow> (Raised AttributeError, [])
      | Some old \<Rightarrow>
          (let new_media = truth (has_media (store st ! new_state));
               old_media = truth (has_media (store st ! old))
           in (Returned,
               (if new_media \<and> \<not> old_media
                then [(''media_added'', [Device (Some new_state)])] else [])
               @ (if old_media \<and> \<not> new_media
                  then [(''media_removed'', [Device (Some new_state)])] else []))))"

definition device_added :: "bus \<Rightarrow> daemon \<Rightarrow> object_path \<Rightarrow> outcome \<times> daemon \<times> event list" where
  "device_added b st p =
     (case Daemon_update b st p of
        Inl e \<Rightarrow> (Raised e, st, [])
      | Inr (st', new_state) \<Rightarrow>
          (Returned, st', [(''device_added'', [Device (Some new_state)])]))"

definition device_removed :: "bus \<Rightarrow> daemon \<Rightarrow> object_path \<Rightarrow> outcome \<times> daemon \<times> event list" where
  "device_removed b st p =
     (let old_state = Daemon_get st p
      in case invalidate b st p of
           Inl e \<Rightarrow> (Raised e, st, [])
         | Inr st' \<Rightarrow> (Returned, st', [(''device_removed'', [Device old_state])]))"

definition device_changed :: "bus \<Rightarrow> daemon \<Rightarrow> object_path \<Rightarrow> outcome \<times> daemon \<times> event list" where
  "device_changed b st p =
     (let old_state = Daemon_get st p
      in case Daemon_update b st p of
           Inl e \<Rightarrow> (Raised e, st, [])
         | Inr (st', new_state) \<Rightarrow>
             (case on_device_changed st' old_state new_state of
                (out, media) \<Rightarrow>
                  (out, st',
                   (''device_changed'', [Device old_state, Device (Some new_state)]) # media)))"

text \<open>The three class tables used by \<^verbatim>\<open>_device_job_changed\<close>.\<close>

definition action_mapping :: "(string \<times> action) list" where
  "action_mapping =
     [(''FilesystemMount'', Mount),
      (''FilesystemUnmount'', Unmount),
      (''LuksUnlock'', Unlock),
      (''LuksLock'', Lock),
      (''DriveDetach'', Detach),
      (''DriveEject'', Eject)]"

fun event_mapping :: "action \<Rightarrow> string" where
  "event_mapping Mount = ''device_mount''"
| "event_mapping Unmount = ''device_unmount''"
| "event_mapping Unlock = ''device_unlock''"
| "event_mapping Lock = ''device_lock''"
| "event_mapping Eject = ''media_remov''"
| "event_mapping Detach = ''device_remov''"

text \<open>Each check is a function of the device handed in, which may be \<^verbatim>\<open>None\<close>; reading
  an attribute of \<^verbatim>\<open>None\<close> raises.  The result is the truth of what the lambda returns.\<close>

definition check_success ::
  "bus \<Rightarrow> (string \<times> (cached_device option \<Rightarrow> exn + bool)) list" where
  "check_success b =
     [(''FilesystemMount'',
         \<lambda>dev. case dev of None \<Rightarrow> Inl AttributeError
                          | Some d \<Rightarrow> Inr (truth (is_mounted d))),
      (''FilesystemUnmount'',
         \<lambda>dev. case dev of None \<Rightarrow> Inr True
                          | Some d \<Rightarrow> Inr (\<not> cached_nonzero d \<or> \<not> truth (is_mounted d))),
      (''LuksUnlock'',
         \<lambda>dev. case dev of None \<Rightarrow> Inl AttributeError
                          | Some d \<Rightarrow> Inr (unlocked_truth b d)),
      (''LuksLock'',
         \<lambda>dev. case dev of None \<Rightarrow> Inr True
                          | Some d \<Rightarrow> Inr (\<not> cached_nonzero d \<or> \<not> unlocked_truth b d)),
      (''DriveDetach'',
         \<lambda>dev. case dev of None \<Rightarrow> Inr True
                          | Some d \<Rightarrow> Inr (\<not> cached_nonzero d)),
      (''DriveEject'',
         \<lambda>dev. case dev of None \<Rightarrow> Inr True
                          | Some d \<Rightarrow> Inr (\<not> cached_nonzero d \<or> \<not> truth (has_media d)))]"

text \<open>\<^verbatim>\<open>self._check_success[job_id](dev)\<close>: the lookup, then the call.\<close>

definition call_check_success :: "bus \<Rightarrow> string \<Rightarrow> cached_device option \<Rightarrow> exn + bool" where
  "call_check_success b jid dev =
     (case map_of (check_success b) jid of
        None \<Rightarrow> Inl KeyError
      | Some check \<Rightarrow> check dev)"

text \<open>\<^verbatim>\<open>self._errors[action].pop(object_path, "")\<close>: the message, and the dictionary
  without the key.\<close>

definition pop_error :: "daemon \<Rightarrow> action \<Rightarrow> object_path \<Rightarrow> string \<times> daemon" where
  "pop_error st a p =
     ((case errors st a p of Some m \<Rightarrow> m | None \<Rightarrow> []),
      st\<lparr>errors := (errors st)(a := (errors st a)(p := None))\<rparr>)"

text \<open>The job kind the listener works with: the recorded one when the notification is
  final and a job is recorded for the path, the one passed in otherwise.\<close>

definition effective_job_id :: "daemon \<Rightarrow> object_path \<Rightarrow> bool \<Rightarrow> string \<Rightarrow> string" where
  "effective_job_id st p job_in_progress passed =
     (if \<not> job_in_progress then
        (case jobs st p of Some j \<Rightarrow> job_id j | None \<Rightarrow> passed)
      else passed)"

definition device_job_changed ::
  "bus \<Rightarrow> daemon \<Rightarrow> object_path \<Rightarrow> bool \<Rightarrow> string \<Rightarrow> bool \<Rightarrow> bool \<Rightarrow> int
     \<Rightarrow> outcome \<times> daemon \<times> event list" where
  "device_job_changed b st p job_in_progress passed job_initiated_by_user
       job_is_cancellable job_percentage =
     (let jid = effective_job_id st p job_in_progress passed
      in case map_of action_mapping jid of
           None \<Rightarrow> (Returned, st, [])
         | Some a \<Rightarrow>
             (let event_name = event_mapping a;
                  dev = Daemon_get st p
              in if job_in_progress then
                   (Returned,
                    st\<lparr>jobs := (jobs st)(p \<mapsto> \<lparr>job_id = jid, percentage = job_percentage\<rparr>)\<rparr>,
                    [(event_name @ ''ing'', [Device dev, Number job_percentage])])
                 else
                   (case call_check_success b jid (map_option (\<lambda>r. store st ! r) dev) of
                      Inl e \<Rightarrow> (Raised e, st, [])
                    | Inr True \<Rightarrow>
                        (case jobs st p of
                           None \<Rightarrow>
                             (Raised KeyError, st, [(event_name @ ''ed'', [Device dev])])
                         | Some _ \<Rightarrow>
                             (Returned, st\<lparr>jobs := (jobs st)(p := None)\<rparr>,
                              [(event_name @ ''ed'', [Device dev])]))
                    | Inr False \<Rightarrow>
                        (case pop_error st a p of
                           (message, st') \<Rightarrow>
                             (Returned, st',
                              [(''job_failed'',
                                [Device dev, Text (''device_'' @ action_name a),
                                 Text message])])))))"

subsection \<open>Runs of the Daemon\<close>

text \<open>
  The states a daemon can be in: the one its constructor leaves, and any state a listener
  or \<^verbatim>\<open>set_error\<close> leaves behind, whether the listener returned or raised, against
  whatever the bus answers at that moment.
\<close>

inductive reachable :: "daemon \<Rightarrow> bool" where
  init: "Daemon_init b = Inr st \<Longrightarrow> reachable st"
| added: "reachable st \<Longrightarrow> device_added b st p = (out, st', evs) \<Longrightarrow> reachable st'"
| removed: "reachable st \<Longrightarrow> device_removed b st p = (out, st', evs) \<Longrightarrow> reachable st'"
| changed: "reachable st \<Longrightarrow> device_changed b st p = (out, st', evs) \<Longrightarrow> reachable st'"
| job_changed:
    "reachable st \<Longrightarrow> device_job_changed b st p prog passed u c pct = (out, st', evs)
       \<Longrightarrow> reachable st'"
| error_set: "reachable st \<Longrightarrow> reachable (set_error st dev a message)"

text \<open>What holds of \<^verbatim>\<open>_devices\<close> in all of them: keys are not repeated, every value is
  the address of an object in the store, and that object is a device of the key's path.\<close>

definition registry_ok :: "daemon \<Rightarrow> bool" where
  "registry_ok st \<longleftrightarrow>
     distinct (map fst (devices st)) \<and>
     (\<forall>(p, r) \<in> set (devices st). r < length (store st) \<and> object_path (store st ! r) = p)"

subsection \<open>The documented tables, for comparison\<close>

text \<open>
  The success conditions as the design document tabulates them, by action, each a condition
  on the snapshot alone: mounted; absent, invalid or not mounted; unlocked, that is, with a
  cleartext holder; absent, invalid or not unlocked; absent, invalid or without media;
  absent or invalid.
\<close>

fun documented_success :: "action \<Rightarrow> cached_device option \<Rightarrow> bool" where
  "documented_success Mount dev =
     (case dev of None \<Rightarrow> False | Some d \<Rightarrow> is_mounted d = Some True)"
| "documented_success Unmount dev =
     (case dev of None \<Rightarrow> True | Some d \<Rightarrow> \<not> is_valid d \<or> is_mounted d \<noteq> Some True)"
| "documented_success Unlock dev =
     (case dev of None \<Rightarrow> False | Some d \<Rightarrow> is_unlocked d \<noteq> None)"
| "documented_success Lock dev =
     (case dev of None \<Rightarrow> True | Some d \<Rightarrow> \<not> is_valid d \<or> is_unlocked d = None)"
| "documented_success Eject dev =
     (case dev of None \<Rightarrow> True | Some d \<Rightarrow> \<not> is_valid d \<or> has_media d \<noteq> Some True)"
| "documented_success Detach dev =
     (case dev of None \<Rightarrow> True | Some d \<Rightarrow> \<not> is_valid d)"

text \<open>The event names as the design document lists them.\<close>

definition documented_event_names :: "string list" where
  "documented_event_names =
     [''device_added'', ''device_removed'', ''device_changed'', ''device_mounting'',
      ''device_mounted'', ''device_unmounting'', ''device_unmounted'', ''device_locking'',
      ''device_locked'', ''device_unlocking'', ''device_unlocked'', ''device_changing'',
      ''media_adding'', ''media_added'', ''media_removing'', ''media_removed'',
      ''job_failed'']"

text \<open>What a listener that refreshed the entry first would do with a final notification:
  \<^verbatim>\<open>update\<close>, then the job listener on the state \<^verbatim>\<open>update\<close> left.\<close>

definition refresh_then_job_changed ::
  "bus \<Rightarrow> daemon \<Rightarrow> object_path \<Rightarrow> bool \<Rightarrow> string \<Rightarrow> bool \<Rightarrow> bool \<Rightarrow> int
     \<Rightarrow> outcome \<times> daemon \<times> event list" where
  "refresh_then_job_changed b st p job_in_progress passed u c pct =
     (if job_in_progress then device_job_changed b st p job_in_progress passed u c pct
      else case Daemon_update b st p of
             Inl e \<Rightarrow> (Raised e, st, [])
           | Inr (st', _) \<Rightarrow> device_job_changed b st' p job_in_progress passed u c pct)"

subsection \<open>A drive with one partition\<close>

text \<open>\<^verbatim>\<open>/dev/sdb\<close> is a drive with a partition table, \<^verbatim>\<open>/dev/sdb1\<close> its only partition,
  a filesystem.  Whether there is media in the drive and whether the partition is mounted
  are left open.  The daemon is run by Python 2, so that a removal can be followed to its
  end.\<close>

definition sdb :: "bool \<Rightarrow> properties" where
  "sdb media =
     \<lparr>DeviceFile = ''/dev/sdb'', DeviceIsDrive = True, DeviceIsPartitionTable = True,
      DeviceIsPartition = False, DeviceIsLuks = False, DeviceIsLuksCleartext = False,
      DeviceIsMediaAvailable = media, DeviceIsMounted = False,
      DeviceIsSystemInternal = False, DevicePresentationHide = False,
      DeviceMountPaths = [], DriveCanDetach = True, DriveIsMediaEjectable = False,
      IdUsage = [], IdType = [], IdLabel = [], IdUuid = [],
      LuksCleartextSlave = ''/'', LuksHolder = ''/'', PartitionSlave = ''/''\<rparr>"

definition sdb1 :: "bool \<Rightarrow> properties" where
  "sdb1 mounted =
     \<lparr>DeviceFile = ''/dev/sdb1'', DeviceIsDrive = False, DeviceIsPartitionTable = False,
      DeviceIsPartition = True, DeviceIsLuks = False, DeviceIsLuksCleartext = False,
      DeviceIsMediaAvailable = True, DeviceIsMounted = mounted,
      DeviceIsSystemInternal = False, DevicePresentationHide = False,
      DeviceMountPaths = (if mounted then [''/media/stick''] else []),
      DriveCanDetach = False, DriveIsMediaEjectable = False,
      IdUsage = ''filesystem'', IdType = ''vfat'', IdLabel = ''stick'', IdUuid = ''1234'',
      LuksCleartextSlave = ''/'', LuksHolder = ''/'', PartitionSlave = ''/dev/sdb''\<rparr>"

definition stick_bus :: "bool \<Rightarrow> bool \<Rightarrow> bus" where
  "stick_bus media mounted =
     \<lparr>EnumerateDevices = [''/dev/sdb'', ''/dev/sdb1''],
      device_properties = [''/dev/sdb'' \<mapsto> sdb media, ''/dev/sdb1'' \<mapsto> sdb1 mounted],
      normpath = (\<lambda>s. s),
      interpreter = Python2,
      recursion_limit = 1000\<rparr>"

text \<open>The daemon started while the stick is in and not mounted.\<close>

definition started :: daemon where
  "started = projr (Daemon_init (stick_bus True False))"

text \<open>The same daemon after a mount job for the partition was announced.\<close>

definition mounting :: daemon where
  "mounting =
     fst (snd (device_job_changed (stick_bus True False) started ''/dev/sdb1'' True
                 ''FilesystemMount'' True False 0))"

text \<open>The same daemon after \<^verbatim>\<open>set_error\<close> left a message for that mount.\<close>

definition warned :: daemon where
  "warned = set_error mounting (store mounting ! 1) Mount ''unknown filesystem type''"

text \<open>The same daemon after the partition was reported removed.\<close>

definition unplugged :: daemon where
  "unplugged = fst (snd (device_removed (stick_bus True False) mounting ''/dev/sdb1''))"

text \<open>The bus of the started daemon, with the daemon run by Python 3.\<close>

definition stick_bus3 :: bus where
  "stick_bus3 = (stick_bus True False)\<lparr>interpreter := Python3\<rparr>"

subsection \<open>An encrypted device\<close>

text \<open>\<^verbatim>\<open>/dev/sdc1\<close> is a LUKS device.  While it is unlocked the service knows its
  cleartext device \<^verbatim>\<open>/dev/dm-0\<close> and names it as the holder; while it is locked the
  holder is \<^verbatim>\<open>/\<close>, which is no device.\<close>

definition sdc1 :: "bool \<Rightarrow> properties" where
  "sdc1 unlocked =
     \<lparr>DeviceFile = ''/dev/sdc1'', DeviceIsDrive = False, DeviceIsPartitionTable = False,
      DeviceIsPartition = False, DeviceIsLuks = True, DeviceIsLuksCleartext = False,
      DeviceIsMediaAvailable = True, DeviceIsMounted = False,
      DeviceIsSystemInternal = False, DevicePresentationHide = False,
      DeviceMountPaths = [], DriveCanDetach = False, DriveIsMediaEjectable = False,
      IdUsage = ''crypto'', IdType = ''crypto_LUKS'', IdLabel = [], IdUuid = ''5678'',
      LuksCleartextSlave = ''/'',
      LuksHolder = (if unlocked then ''/dev/dm-0'' else ''/''),
      PartitionSlave = ''/''\<rparr>"

definition dm0 :: properties where
  "dm0 =
     \<lparr>DeviceFile = ''/dev/dm-0'', DeviceIsDrive = False, DeviceIsPartitionTable = False,
      DeviceIsPartition = False, DeviceIsLuks = False, DeviceIsLuksCleartext = True,
      DeviceIsMediaAvailable = True, DeviceIsMounted = False,
      DeviceIsSystemInternal = False, DevicePresentationHide = False,
      DeviceMountPaths = [], DriveCanDetach = False, DriveIsMediaEjectable = False,
      IdUsage = ''filesystem'', IdType = ''ext4'', IdLabel = [], IdUuid = ''9abc'',
      LuksCleartextSlave = ''/dev/sdc1'', LuksHolder = ''/'', PartitionSlave = ''/''\<rparr>"

definition crypt_bus :: "bool \<Rightarrow> bus" where
  "crypt_bus unlocked =
     \<lparr>EnumerateDevices =
        (if unlocked then [''/dev/sdc1'', ''/dev/dm-0''] else [''/dev/sdc1'']),
      device_properties =
        (if unlocked then [''/dev/sdc1'' \<mapsto> sdc1 True, ''/dev/dm-0'' \<mapsto> dm0]
         else [''/dev/sdc1'' \<mapsto> sdc1 False]),
      normpath = (\<lambda>s. s),
      interpreter = Python3,
      recursion_limit = 1000\<rparr>"

text \<open>The daemon started while the device is unlocked, and the same daemon after a lock
  job for it was announced.\<close>

definition opened :: daemon where
  "opened = projr (Daemon_init (crypt_bus True))"

definition locking :: daemon where
  "locking =
     fst (snd (device_job_changed (crypt_bus True) opened ''/dev/sdc1'' True
                 ''LuksLock'' True False 0))"

section \<open>Properties\<close>

subsection \<open>Evaluating the example\<close>

lemma online_drive_numeral:
  "online_drive (numeral k) b p =
     (case device_properties b p of
        None \<Rightarrow> Inl None
      | Some pr \<Rightarrow>
          if DeviceIsPartition pr then online_drive (pred_numeral k) b (PartitionSlave pr)
          else if DeviceIsLuksCleartext pr
               then online_drive (pred_numeral k) b (LuksCleartextSlave pr)
               else Inr p)"
  by (simp add: numeral_eq_Suc)

lemmas stick_simps =
  Daemon_init_def sync_def Sniffer_iter_def stick_bus_def online_nonzero_def
  online_is_valid_def property_def CachedDevice_def online_drive_numeral sdb_def sdb1_def

lemmas online_defs =
  online_is_drive_def online_is_partition_table_def online_is_partition_def
  online_id_usage_def online_is_filesystem_def online_is_luks_def online_is_detachable_def
  online_is_ejectable_def online_has_media_def online_device_file_def
  online_is_ignored_def online_id_type_def online_id_label_def online_id_uuid_def
  online_is_luks_cleartext_def online_is_systeminternal_def online_is_external_def
  online_is_mounted_def online_mount_paths_def online_luks_cleartext_slave_def
  online_partition_slave_def online_luks_cleartext_holder_def online_is_unlocked_def

lemmas crypt_simps =
  Daemon_init_def sync_def Sniffer_iter_def crypt_bus_def online_nonzero_def
  online_is_valid_def property_def CachedDevice_def online_drive_numeral sdc1_def dm0_def

lemma started_devices: "devices started = [(''/dev/sdb'', 0), (''/dev/sdb1'', 1)]"
  by (simp add: started_def stick_simps)

lemma started_jobs: "jobs started = Map.empty"
  by (simp add: started_def stick_simps)

lemma started_errors: "errors started = (\<lambda>_. Map.empty)"
  by (simp add: started_def stick_simps)

lemma started_length: "length (store started) = 2"
  by (simp add: started_def stick_simps)

lemma started_sdb1:
  "is_valid (store started ! Suc 0)" "is_mounted (store started ! Suc 0) = Some False"
  "key_partition_slave (store started ! Suc 0) = Some ''/dev/sdb''"
  "key_drive (store started ! Suc 0) = Some ''/dev/sdb''"
  "object_path (store started ! Suc 0) = ''/dev/sdb1''"
  by (simp_all add: started_def stick_simps online_is_mounted_def online_partition_slave_def
      online_is_partition_def cached_def)

lemma started_sdb:
  "is_valid (store started ! 0)" "has_media (store started ! 0) = Some True"
  by (simp_all add: started_def stick_simps online_has_media_def)

lemma mounting_store: "store mounting = store started"
  by (simp add: mounting_def device_job_changed_def effective_job_id_def action_mapping_def)

lemma mounting_devices: "devices mounting = devices started"
  by (simp add: mounting_def device_job_changed_def effective_job_id_def action_mapping_def)

lemma mounting_errors: "errors mounting = errors started"
  by (simp add: mounting_def device_job_changed_def effective_job_id_def action_mapping_def)

lemma mounting_jobs:
  "jobs mounting = [''/dev/sdb1'' \<mapsto> \<lparr>job_id = ''FilesystemMount'', percentage = 0\<rparr>]"
  by (simp add: mounting_def device_job_changed_def effective_job_id_def action_mapping_def
      started_jobs)

subsection \<open>The job listener\<close>

text \<open>
  C4.  A notification whose job kind, after the recorded kind has been substituted for a
  final notification, is not a key of \<^verbatim>\<open>_action_mapping\<close> makes the listener return at
  once: nothing is triggered and the jobs, the devices and the error messages are as
  before.
\<close>

theorem unknown_job_kind_ignored:
  assumes "map_of action_mapping (effective_job_id st p prog passed) = None"
  shows "device_job_changed b st p prog passed u c pct = (Returned, st, [])"
  using assms by (simp add: device_job_changed_def)

theorem unknown_job_kind_ignored_witness:
  "map_of action_mapping (effective_job_id started ''/dev/sdb1'' True ''FilesystemCheck'') = None
   \<and> device_job_changed (stick_bus True False) started ''/dev/sdb1'' True ''FilesystemCheck''
        True False 0 = (Returned, started, [])"
proof -
  have h: "map_of action_mapping
             (effective_job_id started ''/dev/sdb1'' True ''FilesystemCheck'') = None"
    by (simp add: effective_job_id_def action_mapping_def)
  show ?thesis
    using h unknown_job_kind_ignored [OF h] by simp
qed

text \<open>
  C10.  A final notification with a known job kind for a path without a recorded job,
  whose check holds on the cached device of that path: the listener triggers the
  \<^verbatim>\<open>...ed\<close> event and then \<^verbatim>\<open>del self._jobs[object_path]\<close> raises \<^verbatim>\<open>KeyError\<close>.
\<close>

theorem finished_without_job_raises:
  assumes "\<not> prog" and "jobs st p = None" and "map_of action_mapping passed = Some a"
    and "call_check_success b passed (map_option (\<lambda>r. store st ! r) (Daemon_get st p))
           = Inr True"
  shows "device_job_changed b st p prog passed u c pct =
           (Raised KeyError, st, [(event_mapping a @ ''ed'', [Device (Daemon_get st p)])])"
  using assms by (simp add: device_job_changed_def effective_job_id_def)

theorem finished_without_job_raises_witness:
  "jobs started ''/dev/sdb1'' = None
   \<and> map_of action_mapping ''FilesystemUnmount'' = Some Unmount
   \<and> call_check_success (stick_bus True False) ''FilesystemUnmount''
        (map_option (\<lambda>r. store started ! r) (Daemon_get started ''/dev/sdb1'')) = Inr True
   \<and> device_job_changed (stick_bus True False) started ''/dev/sdb1'' False
        ''FilesystemUnmount'' True False 100 =
       (Raised KeyError, started, [(''device_unmounted'', [Device (Some 1)])])"
proof -
  have 1: "\<not> False" by simp
  have 2: "jobs started ''/dev/sdb1'' = None" by (simp add: started_jobs)
  have 3: "map_of action_mapping ''FilesystemUnmount'' = Some Unmount"
    by (simp add: action_mapping_def)
  have 4: "call_check_success (stick_bus True False) ''FilesystemUnmount''
        (map_option (\<lambda>r. store started ! r) (Daemon_get started ''/dev/sdb1'')) = Inr True"
    by (simp add: call_check_success_def check_success_def Daemon_get_def started_devices
        started_sdb1 truth_def)
  have 5: "Daemon_get started ''/dev/sdb1'' = Some 1"
    by (simp add: Daemon_get_def started_devices)
  show ?thesis
    using 2 3 4 finished_without_job_raises [OF 1 2 3 4, of True False 100] by (simp add: 5)
qed

text \<open>
  C3.  The job entry is deleted in the branch that triggers the \<^verbatim>\<open>...ed\<close> event only.
  Here a mount job is recorded for \<^verbatim>\<open>/dev/sdb1\<close>, the final notification finds the
  partition not mounted, \<^verbatim>\<open>job_failed\<close> is triggered, and the job is still recorded
  afterwards.
\<close>

theorem failed_job_stays_recorded:
  "fst (device_job_changed (stick_bus True False) mounting ''/dev/sdb1'' False
          ''FilesystemMount'' True False 100) = Returned
   \<and> snd (snd (device_job_changed (stick_bus True False) mounting ''/dev/sdb1'' False
          ''FilesystemMount'' True False 100)) =
       [(''job_failed'', [Device (Some 1), Text ''device_mount'', Text []])]
   \<and> jobs (fst (snd (device_job_changed (stick_bus True False) mounting ''/dev/sdb1'' False
          ''FilesystemMount'' True False 100))) ''/dev/sdb1'' =
       Some \<lparr>job_id = ''FilesystemMount'', percentage = 0\<rparr>"
  by (simp add: device_job_changed_def effective_job_id_def mounting_jobs action_mapping_def
      call_check_success_def check_success_def Daemon_get_def mounting_devices started_devices
      mounting_store started_sdb1 truth_def pop_error_def mounting_errors started_errors)

lemma action_mapping_cases:
  assumes "map_of action_mapping jid = Some a"
  shows "jid = ''FilesystemMount'' \<and> a = Mount \<or> jid = ''FilesystemUnmount'' \<and> a = Unmount
         \<or> jid = ''LuksUnlock'' \<and> a = Unlock \<or> jid = ''LuksLock'' \<and> a = Lock
         \<or> jid = ''DriveDetach'' \<and> a = Detach \<or> jid = ''DriveEject'' \<and> a = Eject"
  using assms by (simp add: action_mapping_def split: if_splits)

lemma ed_not_job_failed: "event_mapping a @ ''ed'' \<noteq> ''job_failed''"
  by (cases a) simp_all

lemma job_changed_final:
  assumes "\<not> prog" and "map_of action_mapping (effective_job_id st p prog passed) = Some a"
  shows "device_job_changed b st p prog passed u c pct =
     (case call_check_success b (effective_job_id st p prog passed)
             (map_option (\<lambda>r. store st ! r) (Daemon_get st p)) of
        Inl e \<Rightarrow> (Raised e, st, [])
      | Inr ok \<Rightarrow>
          if ok then
            (case jobs st p of
               None \<Rightarrow> (Raised KeyError, st,
                         [(event_mapping a @ ''ed'', [Device (Daemon_get st p)])])
             | Some _ \<Rightarrow> (Returned, st\<lparr>jobs := (jobs st)(p := None)\<rparr>,
                           [(event_mapping a @ ''ed'', [Device (Daemon_get st p)])]))
          else (Returned, snd (pop_error st a p),
                [(''job_failed'',
                  [Device (Daemon_get st p), Text (''device_'' @ action_name a),
                   Text (fst (pop_error st a p))])]))"
  using assms
  by (simp add: device_job_changed_def Let_def split: sum.splits bool.splits prod.splits)

lemma opened_devices: "devices opened = [(''/dev/sdc1'', 0), (''/dev/dm-0'', 1)]"
  by (simp add: opened_def crypt_simps)

lemma opened_length: "length (store opened) = 2"
  by (simp add: opened_def crypt_simps)

lemma opened_jobs: "jobs opened = Map.empty"
  by (simp add: opened_def crypt_simps)

lemma opened_errors: "errors opened = (\<lambda>_. Map.empty)"
  by (simp add: opened_def crypt_simps)

lemma opened_sdc1:
  "is_valid (store opened ! 0)" "is_unlocked (store opened ! 0) = Some ''/dev/dm-0''"
  by (simp_all add: opened_def crypt_simps online_is_unlocked_def online_is_luks_def
      online_luks_cleartext_holder_def cached_def)

lemma holder_on_bus:
  "device_properties (crypt_bus True) ''/dev/dm-0'' = Some dm0"
  "device_properties (crypt_bus False) ''/dev/dm-0'' = None"
  by (simp_all add: crypt_bus_def)

text \<open>
  C2.  For every job kind that \<^verbatim>\<open>_action_mapping\<close> knows, the check stored under that
  kind in \<^verbatim>\<open>_check_success\<close> yields a true value exactly when: for mount, unmount,
  eject and detach, the condition tabulated for the action holds of the device handed in;
  for unlock, the device is present, its cached \<^verbatim>\<open>is_unlocked\<close> names a holder, and the
  bus knows that holder at the time of the check; for lock, the device is absent or
  invalid, or it is not unlocked in that sense.  (For mount and unlock an absent device
  makes the check raise; that is not a success either.)
\<close>

theorem check_success_by_action:
  assumes "map_of action_mapping jid = Some a"
  shows "(call_check_success b jid dev = Inr True) =
           (if a = Unlock then
              (\<exists>d h. dev = Some d \<and> is_unlocked d = Some h \<and> device_properties b h \<noteq> None)
            else if a = Lock then
              (\<forall>d. dev = Some d \<longrightarrow>
                 \<not> is_valid d
                 \<or> (\<forall>h. is_unlocked d = Some h \<longrightarrow> device_properties b h = None))
            else documented_success a dev)"
  using action_mapping_cases [OF assms]
  by (elim disjE conjE;
      cases dev;
      simp add: call_check_success_def check_success_def cached_nonzero_def truth_def
           unlocked_truth_def online_nonzero_def online_is_valid_def property_def
           split: option.splits)

theorem check_success_by_action_witness:
  "map_of action_mapping ''LuksLock'' = Some Lock
   \<and> call_check_success (crypt_bus False) ''LuksLock'' (Some (store opened ! 0)) = Inr True
   \<and> call_check_success (crypt_bus True) ''LuksLock'' (Some (store opened ! 0)) \<noteq> Inr True
   \<and> map_of action_mapping ''FilesystemUnmount'' = Some Unmount
   \<and> call_check_success (stick_bus True False) ''FilesystemUnmount''
        (Some (store started ! 1)) = Inr True"
proof -
  have l: "map_of action_mapping ''LuksLock'' = Some Lock"
    by (simp add: action_mapping_def)
  have u: "map_of action_mapping ''FilesystemUnmount'' = Some Unmount"
    by (simp add: action_mapping_def)
  show ?thesis
    using l u
      check_success_by_action [OF l, of "crypt_bus False" "Some (store opened ! 0)"]
      check_success_by_action [OF l, of "crypt_bus True" "Some (store opened ! 0)"]
      check_success_by_action [OF u, of "stick_bus True False" "Some (store started ! 1)"]
    by (simp add: opened_sdc1 holder_on_bus started_sdb1)
qed

text \<open>
  The cached device of \<^verbatim>\<open>/dev/sdc1\<close> was built while the device was unlocked and names
  \<^verbatim>\<open>/dev/dm-0\<close> as its holder, so by the tabulated conditions an unlock has succeeded and
  a lock has not.  The checks agree while the bus still knows the holder; once the bus has
  dropped it they say the opposite, of the same cached device.
\<close>

theorem check_success_counterexample:
  "map_of action_mapping ''LuksUnlock'' = Some Unlock
   \<and> documented_success Unlock (Some (store opened ! 0))
   \<and> call_check_success (crypt_bus True) ''LuksUnlock'' (Some (store opened ! 0)) = Inr True
   \<and> call_check_success (crypt_bus False) ''LuksUnlock'' (Some (store opened ! 0)) = Inr False
   \<and> map_of action_mapping ''LuksLock'' = Some Lock
   \<and> \<not> documented_success Lock (Some (store opened ! 0))
   \<and> call_check_success (crypt_bus False) ''LuksLock'' (Some (store opened ! 0)) = Inr True"
  by (simp add: action_mapping_def call_check_success_def check_success_def opened_sdc1
      cached_nonzero_def unlocked_truth_def online_nonzero_def online_is_valid_def property_def
      holder_on_bus)

subsection \<open>The event names\<close>

text \<open>
  C8.  The list given to the emitter is every stem with \<^verbatim>\<open>ed\<close>, then every stem with
  \<^verbatim>\<open>ing\<close>, then \<^verbatim>\<open>job_failed\<close>: nineteen different names, the seventeen documented
  ones and \<^verbatim>\<open>device_adding\<close> and \<^verbatim>\<open>device_removing\<close>.
\<close>

theorem event_names_are:
  "set event_names = set documented_event_names \<union> {''device_adding'', ''device_removing''}
   \<and> distinct event_names \<and> length event_names = 19"
  by (auto simp: event_names_def stems_def documented_event_names_def)

text \<open>\<^verbatim>\<open>device_removing\<close> is among the names of the daemon and not among the documented
  seventeen.\<close>

theorem event_names_counterexample:
  "''device_removing'' \<in> set event_names \<and> ''device_removing'' \<notin> set documented_event_names
   \<and> length event_names = 19 \<and> length documented_event_names = 17"
  by (simp add: event_names_def stems_def documented_event_names_def)

subsection \<open>The job listener and the registry\<close>

lemma mounting_final_kind:
  "map_of action_mapping (effective_job_id mounting ''/dev/sdb1'' False passed) = Some Mount"
  by (simp add: effective_job_id_def mounting_jobs action_mapping_def)

lemma mounting_check:
  "call_check_success b (effective_job_id mounting ''/dev/sdb1'' False passed)
     (map_option (\<lambda>r. store mounting ! r) (Daemon_get mounting ''/dev/sdb1'')) = Inr False"
  by (simp add: effective_job_id_def mounting_jobs call_check_success_def check_success_def
      Daemon_get_def mounting_devices started_devices mounting_store started_sdb1 truth_def)

lemma mounting_get: "Daemon_get mounting ''/dev/sdb1'' = Some 1"
  by (simp add: Daemon_get_def mounting_devices started_devices)

lemma mounted_update:
  "Daemon_update (stick_bus True True) mounting ''/dev/sdb1'' =
     Inr (mounting\<lparr>store := store mounting @ [projr (CachedDevice (stick_bus True True) ''/dev/sdb1'')],
                   devices := [(''/dev/sdb'', 0), (''/dev/sdb1'', 2)]\<rparr>, 2)"
  by (simp add: Daemon_update_def stick_simps mounting_devices started_devices
      mounting_store started_length cached_nonzero_def Let_def)

lemma warned_parts:
  "store warned = store started" "devices warned = devices started"
  "jobs warned = jobs mounting"
  "errors warned = (\<lambda>_. Map.empty)(Mount := [''/dev/sdb1'' \<mapsto> ''unknown filesystem type''])"
  by (simp_all add: warned_def set_error_def mounting_store mounting_devices mounting_errors
      started_errors started_sdb1)

lemma unlocked_truth_same:
  assumes "\<forall>h. is_unlocked d = Some h \<longrightarrow>
             (device_properties b' h = None) = (device_properties b h = None)"
  shows "unlocked_truth b' d = unlocked_truth b d"
proof (cases "is_unlocked d")
  case None
  then show ?thesis by (simp add: unlocked_truth_def)
next
  case (Some h)
  with assms have "(device_properties b' h = None) = (device_properties b h = None)" by blast
  then show ?thesis
    by (cases "device_properties b' h"; cases "device_properties b h")
       (simp_all add: Some unlocked_truth_def online_nonzero_def online_is_valid_def
          property_def)
qed

lemma check_same_on_buses:
  assumes "map_of action_mapping jid = Some a"
    and "a \<noteq> Unlock \<and> a \<noteq> Lock
         \<or> (\<forall>d h. dev = Some d \<longrightarrow> is_unlocked d = Some h \<longrightarrow>
               (device_properties b' h = None) = (device_properties b h = None))"
  shows "call_check_success b' jid dev = call_check_success b jid dev"
proof (cases dev)
  case None
  from action_mapping_cases [OF assms(1)] show ?thesis
    by (elim disjE conjE) (simp_all add: None call_check_success_def check_success_def)
next
  case (Some d)
  have u: "a = Unlock \<or> a = Lock \<longrightarrow> unlocked_truth b' d = unlocked_truth b d"
  proof
    assume "a = Unlock \<or> a = Lock"
    with assms(2) Some
    have "\<forall>h. is_unlocked d = Some h \<longrightarrow>
            (device_properties b' h = None) = (device_properties b h = None)"
      by blast
    then show "unlocked_truth b' d = unlocked_truth b d" by (rule unlocked_truth_same)
  qed
  from action_mapping_cases [OF assms(1)] u show ?thesis
    by (elim disjE conjE) (simp_all add: Some call_check_success_def check_success_def)
qed

text \<open>
  C1.  The job listener never calls \<^verbatim>\<open>update\<close>.  For a final notification with a known
  job kind it leaves the store of cached devices and \<^verbatim>\<open>_devices\<close> as they were, and it
  triggers the \<^verbatim>\<open>...ed\<close> event exactly when the check holds of the device that
  \<^verbatim>\<open>_devices\<close> held for the path when the notification arrived.  For mount, unmount,
  eject and detach what the listener does is the same whatever the bus answers.  For
  unlock and lock the bus is asked one thing, whether it knows the holder named by the
  cached \<^verbatim>\<open>is_unlocked\<close>: on two buses that agree on that, the listener does the same.
\<close>

theorem job_changed_reads_cache:
  assumes "\<not> prog"
    and "map_of action_mapping (effective_job_id st p prog passed) = Some a"
    and "device_job_changed b st p prog passed u c pct = (out, st', evs)"
  shows "store st' = store st \<and> devices st' = devices st
         \<and> ((evs = [(event_mapping a @ ''ed'', [Device (Daemon_get st p)])])
              = (call_check_success b (effective_job_id st p prog passed)
                   (map_option (\<lambda>r. store st ! r) (map_of (devices st) p)) = Inr True))
         \<and> (a \<noteq> Unlock \<and> a \<noteq> Lock \<longrightarrow>
               (\<forall>b'. device_job_changed b' st p prog passed u c pct = (out, st', evs)))
         \<and> (\<forall>b'. (\<forall>r h. Daemon_get st p = Some r \<longrightarrow> is_unlocked (store st ! r) = Some h \<longrightarrow>
                      (device_properties b' h = None) = (device_properties b h = None))
                 \<longrightarrow> device_job_changed b' st p prog passed u c pct = (out, st', evs))"
proof -
  let ?jid = "effective_job_id st p prog passed"
  let ?dev = "map_option (\<lambda>r. store st ! r) (Daemon_get st p)"
  have frame: "store st' = store st \<and> devices st' = devices st
         \<and> ((evs = [(event_mapping a @ ''ed'', [Device (Daemon_get st p)])])
              = (call_check_success b ?jid
                   (map_option (\<lambda>r. store st ! r) (map_of (devices st) p)) = Inr True))"
  proof (cases "call_check_success b ?jid ?dev")
    case (Inl e)
    with assms(3) show ?thesis
      by (simp add: job_changed_final [OF assms(1,2)] Daemon_get_def)
  next
    case (Inr ok)
    with assms(3) show ?thesis
      by (cases ok; cases "jobs st p")
         (auto simp: job_changed_final [OF assms(1,2)] Daemon_get_def pop_error_def
            ed_not_job_failed)
  qed
  have same: "device_job_changed b' st p prog passed u c pct = (out, st', evs)"
    if "call_check_success b' ?jid ?dev = call_check_success b ?jid ?dev" for b'
    using assms(3) that by (simp add: job_changed_final [OF assms(1,2)])
  have plain: "a \<noteq> Unlock \<and> a \<noteq> Lock \<longrightarrow>
                 (\<forall>b'. device_job_changed b' st p prog passed u c pct = (out, st', evs))"
  proof (intro impI allI)
    fix b' :: bus
    assume na: "a \<noteq> Unlock \<and> a \<noteq> Lock"
    have "call_check_success b' ?jid ?dev = call_check_success b ?jid ?dev"
      by (rule check_same_on_buses [OF assms(2)], rule disjI1, rule na)
    then show "device_job_changed b' st p prog passed u c pct = (out, st', evs)"
      by (rule same)
  qed
  have luks: "\<forall>b'. (\<forall>r h. Daemon_get st p = Some r \<longrightarrow> is_unlocked (store st ! r) = Some h \<longrightarrow>
                      (device_properties b' h = None) = (device_properties b h = None))
                 \<longrightarrow> device_job_changed b' st p prog passed u c pct = (out, st', evs)"
  proof (intro allI impI)
    fix b' :: bus
    assume h: "\<forall>r h. Daemon_get st p = Some r \<longrightarrow> is_unlocked (store st ! r) = Some h \<longrightarrow>
                 (device_properties b' h = None) = (device_properties b h = None)"
    have hd: "\<forall>d h. ?dev = Some d \<longrightarrow> is_unlocked d = Some h \<longrightarrow>
                 (device_properties b' h = None) = (device_properties b h = None)"
    proof (intro allI impI)
      fix d h
      assume d: "?dev = Some d" and u: "is_unlocked d = Some h"
      from d obtain r where r: "Daemon_get st p = Some r" and "d = store st ! r"
        by (cases "Daemon_get st p") simp_all
      with u have "is_unlocked (store st ! r) = Some h" by simp
      with h r show "(device_properties b' h = None) = (device_properties b h = None)"
        by blast
    qed
    have "call_check_success b' ?jid ?dev = call_check_success b ?jid ?dev"
      by (rule check_same_on_buses [OF assms(2)], rule disjI2, rule hd)
    then show "device_job_changed b' st p prog passed u c pct = (out, st', evs)"
      by (rule same)
  qed
  show ?thesis
    by (rule conjI [OF frame [THEN conjunct1]]
          conjI [OF frame [THEN conjunct2, THEN conjunct1]]
          conjI [OF frame [THEN conjunct2, THEN conjunct2]]
          conjI [OF plain luks])+
qed

theorem job_changed_reads_cache_witness:
  "map_of action_mapping (effective_job_id mounting ''/dev/sdb1'' False []) = Some Mount
   \<and> store (fst (snd (device_job_changed (stick_bus True True) mounting ''/dev/sdb1'' False
         [] True False 100))) = store mounting
   \<and> devices (fst (snd (device_job_changed (stick_bus True True) mounting ''/dev/sdb1'' False
         [] True False 100))) = devices mounting
   \<and> snd (snd (device_job_changed (stick_bus True True) mounting ''/dev/sdb1'' False
         [] True False 100)) \<noteq> [(''device_mounted'', [Device (Some 1)])]
   \<and> call_check_success (stick_bus True True) (effective_job_id mounting ''/dev/sdb1'' False [])
        (map_option (\<lambda>r. store mounting ! r) (map_of (devices mounting) ''/dev/sdb1''))
       \<noteq> Inr True
   \<and> device_job_changed (stick_bus False False) mounting ''/dev/sdb1'' False [] True False 100
       = device_job_changed (stick_bus True True) mounting ''/dev/sdb1'' False [] True False 100"
proof -
  have 1: "\<not> False" by simp
  have 3: "device_job_changed (stick_bus True True) mounting ''/dev/sdb1'' False [] True False 100
           = (fst (device_job_changed (stick_bus True True) mounting ''/dev/sdb1'' False [] True False 100),
              fst (snd (device_job_changed (stick_bus True True) mounting ''/dev/sdb1'' False [] True False 100)),
              snd (snd (device_job_changed (stick_bus True True) mounting ''/dev/sdb1'' False [] True False 100)))"
    by simp
  have 4: "call_check_success (stick_bus True True) (effective_job_id mounting ''/dev/sdb1'' False [])
        (map_option (\<lambda>r. store mounting ! r) (map_of (devices mounting) ''/dev/sdb1''))
       \<noteq> Inr True"
    using mounting_check [of "stick_bus True True" "[]"] by (simp add: Daemon_get_def)
  note t = job_changed_reads_cache [OF 1 mounting_final_kind 3]
  have s: "store (fst (snd (device_job_changed (stick_bus True True) mounting ''/dev/sdb1''
             False [] True False 100))) = store mounting"
    by (rule t [THEN conjunct1])
  have d: "devices (fst (snd (device_job_changed (stick_bus True True) mounting ''/dev/sdb1''
             False [] True False 100))) = devices mounting"
    by (rule t [THEN conjunct2, THEN conjunct1])
  have e: "(snd (snd (device_job_changed (stick_bus True True) mounting ''/dev/sdb1'' False
             [] True False 100)) = [(''device_mounted'', [Device (Some 1)])])
           = (call_check_success (stick_bus True True)
                (effective_job_id mounting ''/dev/sdb1'' False [])
                (map_option (\<lambda>r. store mounting ! r) (map_of (devices mounting) ''/dev/sdb1''))
              = Inr True)"
    using t [THEN conjunct2, THEN conjunct2, THEN conjunct1] by (simp add: mounting_get)
  have i: "device_job_changed (stick_bus False False) mounting ''/dev/sdb1'' False [] True False
             100
           = device_job_changed (stick_bus True True) mounting ''/dev/sdb1'' False [] True False
               100"
    using t [THEN conjunct2, THEN conjunct2, THEN conjunct2, THEN conjunct1, rule_format,
             of "stick_bus False False"]
    by simp
  from s d e 4 i show ?thesis
    by (simp add: mounting_final_kind)
qed

lemma locking_parts:
  "store locking = store opened" "devices locking = devices opened"
  "jobs locking = [''/dev/sdc1'' \<mapsto> \<lparr>job_id = ''LuksLock'', percentage = 0\<rparr>]"
  "errors locking = (\<lambda>_. Map.empty)"
  by (simp_all add: locking_def device_job_changed_def effective_job_id_def action_mapping_def
      opened_jobs opened_errors)

text \<open>
  The one question to the bus decides a lock job.  A lock job is recorded for
  \<^verbatim>\<open>/dev/sdc1\<close>, whose cached device names \<^verbatim>\<open>/dev/dm-0\<close> as holder.  If the bus still
  knows the holder when the final notification arrives, \<^verbatim>\<open>job_failed\<close> is triggered; if
  it has dropped it, \<^verbatim>\<open>device_locked\<close> is triggered, both times for the same cached device.
\<close>

lemma lock_job_asks_bus:
  "snd (snd (device_job_changed (crypt_bus True) locking ''/dev/sdc1'' False [] True False 100))
     = [(''job_failed'', [Device (Some 0), Text ''device_lock'', Text []])]
   \<and> snd (snd (device_job_changed (crypt_bus False) locking ''/dev/sdc1'' False [] True False
        100)) = [(''device_locked'', [Device (Some 0)])]"
  by (simp add: device_job_changed_def effective_job_id_def locking_parts action_mapping_def
      Let_def Daemon_get_def opened_devices call_check_success_def check_success_def
      opened_sdc1 cached_nonzero_def unlocked_truth_def online_nonzero_def online_is_valid_def
      property_def holder_on_bus pop_error_def)

text \<open>
  The bus reports \<^verbatim>\<open>/dev/sdb1\<close> mounted, the cached device still says it is not: the
  listener triggers \<^verbatim>\<open>job_failed\<close> and the cached device stays as it was, while a
  listener that refreshed the entry first would trigger \<^verbatim>\<open>device_mounted\<close>.
\<close>

theorem job_changed_refresh_counterexample:
  "online_is_mounted (stick_bus True True) ''/dev/sdb1'' = Some True
   \<and> snd (snd (device_job_changed (stick_bus True True) mounting ''/dev/sdb1'' False
         [] True False 100)) = [(''job_failed'', [Device (Some 1), Text ''device_mount'', Text []])]
   \<and> is_mounted (store (fst (snd (device_job_changed (stick_bus True True) mounting
         ''/dev/sdb1'' False [] True False 100))) ! 1) = Some False
   \<and> snd (snd (refresh_then_job_changed (stick_bus True True) mounting ''/dev/sdb1'' False
         [] True False 100)) = [(''device_mounted'', [Device (Some 2)])]"
proof -
  have n: "\<not> False" by simp
  have a: "online_is_mounted (stick_bus True True) ''/dev/sdb1'' = Some True"
    by (simp add: online_is_mounted_def property_def stick_bus_def sdb1_def)
  have b: "device_job_changed (stick_bus True True) mounting ''/dev/sdb1'' False [] True False 100
           = (Returned, snd (pop_error mounting Mount ''/dev/sdb1''),
              [(''job_failed'', [Device (Some 1), Text ''device_mount'', Text []])])"
    unfolding job_changed_final [OF n mounting_final_kind] mounting_check
    by (simp add: mounting_get pop_error_def mounting_errors started_errors)
  have c: "is_mounted (store (snd (pop_error mounting Mount ''/dev/sdb1'')) ! 1) = Some False"
    by (simp add: pop_error_def mounting_store started_sdb1)
  have e: "is_mounted (projr (CachedDevice (stick_bus True True) ''/dev/sdb1'')) = Some True"
    by (simp add: stick_simps online_is_mounted_def)
  have d: "snd (snd (refresh_then_job_changed (stick_bus True True) mounting ''/dev/sdb1'' False
         [] True False 100)) = [(''device_mounted'', [Device (Some 2)])]"
    unfolding refresh_then_job_changed_def mounted_update
    by (simp add: device_job_changed_def effective_job_id_def mounting_jobs action_mapping_def
        Let_def Daemon_get_def call_check_success_def check_success_def mounting_store
        started_length truth_def nth_append e)
  show ?thesis using a c d by (simp add: b)
qed

text \<open>
  C6.  When the check of a final notification fails, \<^verbatim>\<open>job_failed\<close> carries the message
  stored for the action and the path, or the empty string if there is none; a message put
  there by \<^verbatim>\<open>set_error\<close> is that message.  Afterwards the entry is gone, so popping it
  again yields the empty string, and every other entry is as before.
\<close>

theorem error_message_consumed_once:
  assumes "\<not> prog"
    and "map_of action_mapping (effective_job_id st p prog passed) = Some a"
    and "call_check_success b (effective_job_id st p prog passed)
           (map_option (\<lambda>r. store st ! r) (Daemon_get st p)) = Inr False"
    and "device_job_changed b st p prog passed u c pct = (out, st', evs)"
  shows "evs = [(''job_failed'',
                 [Device (Daemon_get st p), Text (''device_'' @ action_name a),
                  Text (case errors st a p of Some m \<Rightarrow> m | None \<Rightarrow> [])])]
         \<and> (\<forall>st0 dev m. st = set_error st0 dev a m \<longrightarrow> object_path dev = p \<longrightarrow>
               errors st a p = Some m)
         \<and> errors st' a p = None
         \<and> fst (pop_error st' a p) = []
         \<and> (\<forall>a' p'. (a', p') \<noteq> (a, p) \<longrightarrow> errors st' a' p' = errors st a' p')"
proof -
  have r: "st' = snd (pop_error st a p)" "evs = [(''job_failed'',
                 [Device (Daemon_get st p), Text (''device_'' @ action_name a),
                  Text (fst (pop_error st a p))])]"
    using assms(3,4) by (simp_all add: job_changed_final [OF assms(1,2)])
  show ?thesis
    unfolding r by (auto simp: pop_error_def set_error_def)
qed

theorem error_message_consumed_once_witness:
  "map_of action_mapping (effective_job_id warned ''/dev/sdb1'' False []) = Some Mount
   \<and> call_check_success (stick_bus True False) (effective_job_id warned ''/dev/sdb1'' False [])
        (map_option (\<lambda>r. store warned ! r) (Daemon_get warned ''/dev/sdb1'')) = Inr False
   \<and> snd (snd (device_job_changed (stick_bus True False) warned ''/dev/sdb1'' False [] True
        False 100)) =
       [(''job_failed'',
         [Device (Some 1), Text ''device_mount'', Text ''unknown filesystem type''])]
   \<and> errors (fst (snd (device_job_changed (stick_bus True False) warned ''/dev/sdb1'' False []
        True False 100))) Mount ''/dev/sdb1'' = None
   \<and> errors warned Mount ''/dev/sdb1'' = Some ''unknown filesystem type''"
proof -
  have 1: "\<not> False" by simp
  have 2: "map_of action_mapping (effective_job_id warned ''/dev/sdb1'' False []) = Some Mount"
    by (simp add: effective_job_id_def warned_parts mounting_jobs action_mapping_def)
  have 3: "call_check_success (stick_bus True False)
             (effective_job_id warned ''/dev/sdb1'' False [])
             (map_option (\<lambda>r. store warned ! r) (Daemon_get warned ''/dev/sdb1'')) = Inr False"
    by (simp add: effective_job_id_def warned_parts mounting_jobs call_check_success_def
        check_success_def Daemon_get_def started_devices started_sdb1 truth_def)
  have 4: "device_job_changed (stick_bus True False) warned ''/dev/sdb1'' False [] True False 100
           = (fst (device_job_changed (stick_bus True False) warned ''/dev/sdb1'' False [] True False 100),
              fst (snd (device_job_changed (stick_bus True False) warned ''/dev/sdb1'' False [] True False 100)),
              snd (snd (device_job_changed (stick_bus True False) warned ''/dev/sdb1'' False [] True False 100)))"
    by simp
  have 5: "Daemon_get warned ''/dev/sdb1'' = Some 1"
    by (simp add: Daemon_get_def warned_parts started_devices)
  have 6: "errors warned Mount ''/dev/sdb1'' = Some ''unknown filesystem type''"
    by (simp add: warned_parts)
  show ?thesis
    using error_message_consumed_once [OF 1 2 3 4] 2 3 6 by (simp add: 5)
qed

subsection \<open>The registry in every run\<close>

lemma set_alist_update: "set (AList.update k v al) \<subseteq> insert (k, v) (set al)"
  by (induction al) auto

lemma CachedDevice_path: "CachedDevice b p = Inr obj \<Longrightarrow> object_path obj = p"
  by (auto simp: CachedDevice_def split: sum.splits option.splits)

lemma registry_ok_store:
  assumes "registry_ok st" and "object_path obj = p"
  shows "registry_ok (st\<lparr>store := store st @ [obj],
                         devices := AList.update p (length (store st)) (devices st)\<rparr>)"
proof -
  have "r < Suc (length (store st)) \<and> object_path ((store st @ [obj]) ! r) = q"
    if "(q, r) \<in> set (AList.update p (length (store st)) (devices st))" for q r
  proof -
    from that set_alist_update
    have "(q, r) = (p, length (store st)) \<or> (q, r) \<in> set (devices st)" by fastforce
    then show ?thesis
      using assms by (auto simp: registry_ok_def nth_append)
  qed
  then show ?thesis
    using assms(1) by (auto simp: registry_ok_def distinct_update)
qed

lemma registry_ok_alloc:
  assumes "registry_ok st"
  shows "registry_ok (st\<lparr>store := store st @ [obj]\<rparr>)"
  using assms by (fastforce simp: registry_ok_def nth_append)

lemma copy_device_same: "copy_device py dev = Inr update \<Longrightarrow> update = dev"
  by (cases py) (simp_all add: copy_device_def)

lemma invalidate_known:
  assumes "map_of (devices st) p = Some r" and "invalidate b st p = Inr st'"
  shows "st' = st\<lparr>store := store st @ [(store st ! r)\<lparr>is_valid := False\<rparr>],
                  devices := AList.update p (length (store st)) (devices st)\<rparr>"
  using assms by (auto simp: invalidate_def split: sum.splits dest: copy_device_same)

lemma registry_ok_invalidate:
  assumes "registry_ok st" and "invalidate b st p = Inr st'"
  shows "registry_ok st'"
proof (cases "map_of (devices st) p")
  case None
  then show ?thesis using assms by (simp add: invalidate_def)
next
  case (Some r)
  then have "(p, r) \<in> set (devices st)" by (rule map_of_SomeD)
  with assms(1) have "object_path ((store st ! r)\<lparr>is_valid := False\<rparr>) = p"
    by (auto simp: registry_ok_def)
  from registry_ok_store [OF assms(1) this] invalidate_known [OF Some assms(2)]
  show ?thesis by simp
qed

lemma registry_ok_update:
  assumes "registry_ok st" and "Daemon_update b st p = Inr (st', r)"
  shows "registry_ok st'"
proof -
  from assms(2) obtain obj where obj: "CachedDevice b p = Inr obj"
    by (auto simp: Daemon_update_def split: sum.splits)
  show ?thesis
  proof (cases "cached_nonzero obj \<or> map_of (devices st) p = None")
    case True
    with assms(2) obj
    have "st' = st\<lparr>store := store st @ [obj],
                    devices := AList.update p (length (store st)) (devices st)\<rparr>"
      by (auto simp: Daemon_update_def Let_def)
    then show ?thesis
      using registry_ok_store [OF assms(1) CachedDevice_path [OF obj]] by simp
  next
    case False
    with assms(2) obj have "invalidate b (st\<lparr>store := store st @ [obj]\<rparr>) p = Inr st'"
      by (auto simp: Daemon_update_def Let_def split: sum.splits)
    then show ?thesis
      by (rule registry_ok_invalidate [OF registry_ok_alloc [OF assms(1)]])
  qed
qed

lemma registry_ok_sync_cache:
  "registry_ok st \<Longrightarrow> sync_cache b ps st = Inr st' \<Longrightarrow> registry_ok st'"
proof (induction ps arbitrary: st)
  case Nil
  then show ?case by simp
next
  case (Cons p ps)
  from Cons.prems(2) obtain obj where obj: "CachedDevice b p = Inr obj"
    by (auto split: sum.splits)
  with Cons.prems(2)
  have "sync_cache b ps (st\<lparr>store := store st @ [obj],
          devices := AList.update p (length (store st)) (devices st)\<rparr>) = Inr st'"
    by simp
  from Cons.IH [OF registry_ok_store [OF Cons.prems(1) CachedDevice_path [OF obj]] this]
  show ?case .
qed

lemma registry_ok_init: "Daemon_init b = Inr st \<Longrightarrow> registry_ok st"
  unfolding Daemon_init_def sync_def Let_def
  by (erule registry_ok_sync_cache [rotated]) (simp add: registry_ok_def)

lemma registry_ok_job_changed:
  assumes "registry_ok st" and "device_job_changed b st p prog passed u c pct = (out, st', evs)"
  shows "registry_ok st'"
proof -
  have "store st' = store st \<and> devices st' = devices st"
    using assms(2)
    by (auto simp: device_job_changed_def Let_def pop_error_def
        split: option.splits sum.splits bool.splits if_splits)
  with assms(1) show ?thesis by (simp add: registry_ok_def)
qed

lemma reachable_registry_ok: "reachable st \<Longrightarrow> registry_ok st"
proof (induction rule: reachable.induct)
  case (init b st)
  then show ?case by (rule registry_ok_init)
next
  case (added st b p out st' evs)
  then show ?case
    by (auto simp: device_added_def split: sum.splits dest: registry_ok_update)
next
  case (removed st b p out st' evs)
  then show ?case
    by (auto simp: device_removed_def Let_def split: sum.splits dest: registry_ok_invalidate)
next
  case (changed st b p out st' evs)
  then show ?case
    by (auto simp: device_changed_def Let_def split: sum.splits prod.splits
        dest: registry_ok_update)
next
  case (job_changed st b p prog passed u c pct out st' evs)
  then show ?case by (auto dest: registry_ok_job_changed)
next
  case (error_set st dev a message)
  then show ?case by (simp add: registry_ok_def set_error_def)
qed

lemma started_init: "Daemon_init (stick_bus True False) = Inr started"
  by (simp add: started_def stick_simps)

lemma reachable_started: "reachable started"
  by (rule reachable.init [OF started_init])

lemma reachable_mounting: "reachable mounting"
proof -
  obtain out st' evs where r:
    "device_job_changed (stick_bus True False) started ''/dev/sdb1'' True ''FilesystemMount''
       True False 0 = (out, st', evs)"
    using prod_cases3 by blast
  from reachable.job_changed [OF reachable_started r] show ?thesis
    by (simp add: mounting_def r)
qed

lemma reachable_unplugged: "reachable unplugged"
proof -
  obtain out st' evs where r:
    "device_removed (stick_bus True False) mounting ''/dev/sdb1'' = (out, st', evs)"
    using prod_cases3 by blast
  from reachable.removed [OF reachable_mounting r] show ?thesis
    by (simp add: unplugged_def r)
qed

lemma iter_sublist:
  assumes "distinct (map fst al)" and "set xs \<subseteq> set al"
    and "\<forall>(p, r) \<in> set xs. P r"
  shows "List.map_filter (\<lambda>d. case d of None \<Rightarrow> None | Some r \<Rightarrow> if P r then Some r else None)
           (map (map_of al) (map fst xs)) = map snd xs"
  using assms(2,3)
proof (induction xs)
  case Nil
  then show ?case by (simp add: List.map_filter_simps)
next
  case (Cons x xs)
  obtain p r where x: "x = (p, r)" by (cases x)
  with Cons.prems assms(1) have "map_of al p = Some r" "P r" by auto
  with Cons x show ?case by (simp add: List.map_filter_simps)
qed

lemma unplugged_parts:
  "devices unplugged = [(''/dev/sdb'', 0), (''/dev/sdb1'', 2)]"
  "store unplugged = store started @ [(store started ! 1)\<lparr>is_valid := False\<rparr>]"
  by (simp_all add: unplugged_def device_removed_def invalidate_def copy_device_def
      stick_bus_def mounting_devices mounting_store started_devices started_length)

lemma paths_set:
  assumes "registry_ok st"
  shows "set (Daemon_paths st) =
           {p. \<exists>r. Daemon_get st p = Some r \<and> is_valid (store st ! r)}"
proof -
  from assms have "distinct (map fst (devices st))" by (simp add: registry_ok_def)
  then show ?thesis
    by (force simp: Daemon_paths_def Daemon_get_def cached_nonzero_def)
qed

text \<open>
  C5.  In every state a daemon can reach, \<^verbatim>\<open>paths()\<close> yields, each once, exactly the
  object paths whose entry in \<^verbatim>\<open>_devices\<close> is a cached device with \<^verbatim>\<open>is_valid\<close> set,
  and iterating the daemon yields the cached devices of those paths in the same order, all
  of them valid; a path whose entry is invalid is not yielded.
\<close>

theorem paths_are_valid_entries:
  assumes "reachable st"
  shows "set (Daemon_paths st) = {p. \<exists>r. Daemon_get st p = Some r \<and> is_valid (store st ! r)}
         \<and> distinct (Daemon_paths st)
         \<and> map (\<lambda>r. object_path (store st ! r)) (UDisks_iter st) = Daemon_paths st
         \<and> (\<forall>r \<in> set (UDisks_iter st). is_valid (store st ! r))"
proof -
  from reachable_registry_ok [OF assms]
  have d: "distinct (map fst (devices st))"
    and o: "\<forall>(p, r) \<in> set (devices st). r < length (store st) \<and> object_path (store st ! r) = p"
    by (simp_all add: registry_ok_def)
  let ?valid = "filter (\<lambda>(p, r). cached_nonzero (store st ! r)) (devices st)"
  have 1: "set (Daemon_paths st) =
             {p. \<exists>r. Daemon_get st p = Some r \<and> is_valid (store st ! r)}"
    by (rule paths_set [OF reachable_registry_ok [OF assms]])
  have 2: "distinct (Daemon_paths st)"
    using d by (simp add: Daemon_paths_def distinct_map_filter)
  have it: "UDisks_iter st = map snd ?valid"
    unfolding UDisks_iter_def Daemon_paths_def Daemon_get_def
    by (rule iter_sublist [OF d]) auto
  have 3: "map (\<lambda>r. object_path (store st ! r)) (UDisks_iter st) = Daemon_paths st"
    using o by (auto simp: it Daemon_paths_def)
  have 4: "\<forall>r \<in> set (UDisks_iter st). is_valid (store st ! r)"
    by (auto simp: it cached_nonzero_def)
  from 1 2 3 4 show ?thesis by blast
qed

theorem paths_are_valid_entries_witness:
  "reachable unplugged
   \<and> Daemon_paths unplugged = [''/dev/sdb'']
   \<and> Daemon_get unplugged ''/dev/sdb1'' = Some 2
   \<and> \<not> is_valid (store unplugged ! 2)
   \<and> set (Daemon_paths unplugged) =
       {p. \<exists>r. Daemon_get unplugged p = Some r \<and> is_valid (store unplugged ! r)}
   \<and> map (\<lambda>r. object_path (store unplugged ! r)) (UDisks_iter unplugged) = [''/dev/sdb'']"
proof -
  have p: "Daemon_paths unplugged = [''/dev/sdb'']"
    by (simp add: Daemon_paths_def unplugged_parts cached_nonzero_def nth_append started_length
        started_sdb)
  have g: "Daemon_get unplugged ''/dev/sdb1'' = Some 2"
    by (simp add: Daemon_get_def unplugged_parts)
  have v: "\<not> is_valid (store unplugged ! 2)"
    by (simp add: unplugged_parts nth_append started_length)
  show ?thesis
    using paths_are_valid_entries [OF reachable_unplugged] reachable_unplugged g v
    by (simp add: p)
qed

text \<open>
  Under Python 2 \<^verbatim>\<open>_invalidate\<close> does what its docstring says.  For a path that
  \<^verbatim>\<open>_devices\<close> knows, the entry becomes a new object that differs from the previous one
  in \<^verbatim>\<open>is_valid\<close> only, which is false.  Every object that existed before, the previous
  entry among them, keeps all its attributes; the entries of other paths, the jobs and the
  error messages stay, and the path is no longer yielded by \<^verbatim>\<open>paths()\<close>.
\<close>

lemma invalidate_copies_on_python2:
  assumes "reachable st" and "Daemon_get st p = Some r" and "interpreter b = Python2"
  shows "\<exists>st'. invalidate b st p = Inr st'
         \<and> r < length (store st)
         \<and> Daemon_get st' p = Some (length (store st))
         \<and> store st' ! length (store st) = (store st ! r)\<lparr>is_valid := False\<rparr>
         \<and> (\<forall>r' < length (store st). store st' ! r' = store st ! r')
         \<and> (\<forall>q. q \<noteq> p \<longrightarrow> Daemon_get st' q = Daemon_get st q)
         \<and> p \<notin> set (Daemon_paths st')
         \<and> jobs st' = jobs st \<and> errors st' = errors st"
proof -
  define st' where
    "st' = st\<lparr>store := store st @ [(store st ! r)\<lparr>is_valid := False\<rparr>],
              devices := AList.update p (length (store st)) (devices st)\<rparr>"
  from assms(2) have m: "map_of (devices st) p = Some r" by (simp add: Daemon_get_def)
  then have "(p, r) \<in> set (devices st)" by (rule map_of_SomeD)
  with reachable_registry_ok [OF assms(1)] have r: "r < length (store st)"
    by (auto simp: registry_ok_def)
  have i: "invalidate b st p = Inr st'"
    using m assms(3) by (simp add: invalidate_def copy_device_def st'_def)
  have inv: "registry_ok st'"
    by (rule registry_ok_invalidate [OF reachable_registry_ok [OF assms(1)] i])
  have g: "Daemon_get st' p = Some (length (store st))"
    by (simp add: st'_def Daemon_get_def update_conv')
  have n: "store st' ! length (store st) = (store st ! r)\<lparr>is_valid := False\<rparr>"
    by (simp add: st'_def)
  from paths_set [OF inv] g n
  have np: "p \<notin> set (Daemon_paths st')" by auto
  have rest: "(\<forall>r' < length (store st). store st' ! r' = store st ! r')
         \<and> (\<forall>q. q \<noteq> p \<longrightarrow> Daemon_get st' q = Daemon_get st q)
         \<and> jobs st' = jobs st \<and> errors st' = errors st"
    by (auto simp: st'_def Daemon_get_def update_conv' nth_append)
  from i r g n np rest show ?thesis by blast
qed

lemma invalidate_raises_on_python3:
  assumes "map_of (devices st) p = Some r" and "interpreter b = Python3"
  shows "invalidate b st p = Inl RecursionError"
    and "device_removed b st p = (Raised RecursionError, st, [])"
  using assms by (simp_all add: invalidate_def copy_device_def device_removed_def)

lemma started_init3: "Daemon_init stick_bus3 = Inr started"
  by (simp add: started_def stick_bus3_def stick_simps online_defs)

text \<open>
  C7.  The docstring of \<^verbatim>\<open>_invalidate\<close> says that it flags the device invalid and so
  removes it from the iteration.  Under Python 3 it does not.  The daemon is started by
  Python 3 with the stick in; \<^verbatim>\<open>_invalidate\<close> for the partition raises
  \<^verbatim>\<open>RecursionError\<close> out of \<^verbatim>\<open>copy\<close>, and so does the listener for the removal, before
  \<^verbatim>\<open>device_removed\<close> is triggered.  The entry of the partition is the object it was, still
  valid and still yielded by \<^verbatim>\<open>paths()\<close>.
\<close>

theorem invalidate_fails_on_python3:
  "interpreter stick_bus3 = Python3
   \<and> Daemon_init stick_bus3 = Inr started
   \<and> Daemon_get started ''/dev/sdb1'' = Some 1
   \<and> invalidate stick_bus3 started ''/dev/sdb1'' = Inl RecursionError
   \<and> device_removed stick_bus3 started ''/dev/sdb1'' = (Raised RecursionError, started, [])
   \<and> is_valid (store started ! 1)
   \<and> Daemon_paths started = [''/dev/sdb'', ''/dev/sdb1'']"
proof -
  have i: "interpreter stick_bus3 = Python3"
    by (simp add: stick_bus3_def)
  have m: "map_of (devices started) ''/dev/sdb1'' = Some 1"
    by (simp add: started_devices)
  have p: "Daemon_paths started = [''/dev/sdb'', ''/dev/sdb1'']"
    by (simp add: Daemon_paths_def started_devices cached_nonzero_def started_sdb started_sdb1)
  show ?thesis
    using i m p invalidate_raises_on_python3 [OF m i] started_init3
    by (simp add: Daemon_get_def started_sdb1)
qed

subsection \<open>The relational properties of a cached device\<close>

text \<open>
  C9.  The docstring of \<^verbatim>\<open>_CachedDeviceProperty\<close> promises the current known cached
  state of the device whose path was stored.  In the started daemon the cached partition
  stores \<^verbatim>\<open>/dev/sdb\<close> as its partition slave and as its drive, and \<^verbatim>\<open>_devices\<close> holds
  the cached drive at address 0, with media.  The accessors do not return that object:
  \<^verbatim>\<open>self._daemon\<close> is the sniffer, so they return a new online device for the path, which
  answers from the bus (no media, once the bus says so) and not from the registry.
\<close>

theorem relational_accessor_is_online:
  "Daemon_get started ''/dev/sdb'' = Some 0
   \<and> has_media (store started ! 0) = Some True
   \<and> cached_partition_slave (store started ! 1) = OnlineDevice (Some ''/dev/sdb'')
   \<and> cached_drive (store started ! 1) = OnlineDevice (Some ''/dev/sdb'')
   \<and> cached_partition_slave (store started ! 1) \<noteq> CachedObject 0
   \<and> online_has_media (stick_bus False False) ''/dev/sdb'' = Some False"
  by (simp add: Daemon_get_def started_devices started_sdb started_sdb1 cached_partition_slave_def
      cached_drive_def Sniffer_get_def online_has_media_def property_def stick_bus_def sdb_def)

end
